theory Spec2Isabelle
  imports Complex_Main
begin

section \<open>Two-dimensional numeric arrays\<close>

text \<open>
  The notebook \<^verbatim>\<open>lecture_3/CEx4_Convolutions_&_Filters.ipynb\<close> works on two-dimensional
  numpy arrays. An array carries its shape next to its contents: numpy allows the shapes
  \<open>(0, w)\<close> and \<open>(h, 0)\<close>, which a bare list of rows cannot tell apart. The entries are
  modelled as exact reals, so every statement below about values is a statement about exact
  arithmetic, not about rounding.
\<close>

record ndarray =
  nrows :: nat
  ncols :: nat
  cells :: "real list list"

definition wf_array :: "ndarray \<Rightarrow> bool" where
  "wf_array a \<longleftrightarrow>
     length (cells a) = nrows a \<and> list_all (\<lambda>r. length r = ncols a) (cells a)"

text \<open>
  The exceptions numpy can raise in the operations used by \<^verbatim>\<open>convolve2d\<close>:
  \<^verbatim>\<open>ValueError\<close> (a negative dimension given to \<^verbatim>\<open>np.zeros\<close>, operands that do not
  broadcast) and \<^verbatim>\<open>IndexError\<close> (an assignment outside the array).
\<close>

datatype error = ValueError | IndexError

text \<open>\<^verbatim>\<open>np.zeros((h, w))\<close>: the dimensions are Python integers and may be negative.\<close>

definition np_zeros :: "int \<Rightarrow> int \<Rightarrow> error + ndarray" where
  "np_zeros h w =
     (if h < 0 \<or> w < 0 then Inl ValueError
      else Inr \<lparr>nrows = nat h, ncols = nat w,
                cells = replicate (nat h) (replicate (nat w) 0)\<rparr>)"

text \<open>
  \<^verbatim>\<open>np.pad(a, ((ph, ph), (pw, pw)), mode='constant')\<close>: \<open>ph\<close> rows before and after,
  \<open>pw\<close> columns before and after, filled with the default constant 0.
\<close>

definition np_pad :: "ndarray \<Rightarrow> nat \<Rightarrow> nat \<Rightarrow> ndarray" where
  "np_pad a ph pw =
     (let w = ncols a + 2 * pw;
          blank = replicate ph (replicate w 0)
      in \<lparr>nrows = nrows a + 2 * ph, ncols = w,
          cells = blank @ map (\<lambda>r. replicate pw 0 @ r @ replicate pw 0) (cells a) @ blank\<rparr>)"

text \<open>
  The basic slice \<^verbatim>\<open>a[r0:r1, c0:c1]\<close> with non-negative bounds; as in Python, bounds
  beyond the shape are clamped and never raise.
\<close>

definition slice2d :: "ndarray \<Rightarrow> nat \<Rightarrow> nat \<Rightarrow> nat \<Rightarrow> nat \<Rightarrow> ndarray" where
  "slice2d a r0 r1 c0 c1 =
     \<lparr>nrows = min r1 (nrows a) - min r0 (nrows a),
      ncols = min c1 (ncols a) - min c0 (ncols a),
      cells = map (\<lambda>r. take (c1 - c0) (drop c0 r)) (take (r1 - r0) (drop r0 (cells a)))\<rparr>"

text \<open>
  Elementwise \<^verbatim>\<open>x * y\<close> with numpy's broadcasting: two extents are compatible when they
  are equal or one of them is 1, and an axis of extent 1 is read at index 0 throughout.
\<close>

definition broadcast_dim :: "nat \<Rightarrow> nat \<Rightarrow> nat option" where
  "broadcast_dim m n =
     (if m = n then Some m else if m = 1 then Some n else if n = 1 then Some m else None)"

definition bget :: "ndarray \<Rightarrow> nat \<Rightarrow> nat \<Rightarrow> real" where
  "bget x i j = cells x ! (if nrows x = 1 then 0 else i) ! (if ncols x = 1 then 0 else j)"

definition np_broadcast :: "(real \<Rightarrow> real \<Rightarrow> real) \<Rightarrow> ndarray \<Rightarrow> ndarray \<Rightarrow> error + ndarray" where
  "np_broadcast f x y =
     (case broadcast_dim (nrows x) (nrows y) of
        None \<Rightarrow> Inl ValueError
      | Some h \<Rightarrow>
          (case broadcast_dim (ncols x) (ncols y) of
             None \<Rightarrow> Inl ValueError
           | Some w \<Rightarrow>
               Inr \<lparr>nrows = h, ncols = w,
                    cells = map (\<lambda>i. map (\<lambda>j. f (bget x i j) (bget y i j)) [0..<w]) [0..<h]\<rparr>))"

definition np_mul :: "ndarray \<Rightarrow> ndarray \<Rightarrow> error + ndarray" where
  "np_mul = np_broadcast (*)"

definition np_add :: "ndarray \<Rightarrow> ndarray \<Rightarrow> error + ndarray" where
  "np_add = np_broadcast (+)"

text \<open>The product \<^verbatim>\<open>a * x\<close> of a scalar and an array.\<close>

definition np_scale :: "real \<Rightarrow> ndarray \<Rightarrow> ndarray" where
  "np_scale a x = x\<lparr>cells := map (map ((*) a)) (cells x)\<rparr>"

text \<open>\<^verbatim>\<open>np.full((h, w), v)\<close>: the array of shape \<open>(h, w)\<close> with every entry \<open>v\<close>.\<close>

definition np_full :: "nat \<Rightarrow> nat \<Rightarrow> real \<Rightarrow> ndarray" where
  "np_full h w v = \<lparr>nrows = h, ncols = w, cells = replicate h (replicate w v)\<rparr>"

text \<open>\<^verbatim>\<open>np.sum(a)\<close>: the sum of all entries.\<close>

definition np_sum :: "ndarray \<Rightarrow> real" where
  "np_sum a = sum_list (concat (cells a))"

text \<open>The assignment \<^verbatim>\<open>a[i, j] = v\<close> with non-negative indices.\<close>

definition set_item :: "ndarray \<Rightarrow> nat \<Rightarrow> nat \<Rightarrow> real \<Rightarrow> error + ndarray" where
  "set_item a i j v =
     (if i < nrows a \<and> j < ncols a
      then Inr (a\<lparr>cells := (cells a)[i := (cells a ! i)[j := v]]\<rparr>)
      else Inl IndexError)"

section \<open>The convolution routine\<close>

text \<open>
  \<^verbatim>\<open>
  def convolve2d(image, kernel, padding='valid'):
      image_height, image_width = image.shape
      kernel_height, kernel_width = kernel.shape
      if padding == 'same':
          pad_h = kernel_height // 2
          pad_w = kernel_width // 2
          image = np.pad(image, ((pad_h, pad_h), (pad_w, pad_w)), mode='constant')
          image_height, image_width = image.shape
      output_height = image_height - kernel_height + 1
      output_width = image_width - kernel_width + 1
      output = np.zeros((output_height, output_width))
      for i in range(output_height):
          for j in range(output_width):
              region = image[i:i+kernel_height, j:j+kernel_width]
              output[i, j] = np.sum(region * kernel)
      return output
  \<close>
  The inner loop runs over the column indices still to visit, the outer loop over the row
  indices; both thread the output array and stop at the first exception.
\<close>

fun inner_loop :: "ndarray \<Rightarrow> ndarray \<Rightarrow> nat \<Rightarrow> nat list \<Rightarrow> ndarray \<Rightarrow> error + ndarray" where
  "inner_loop img ker i [] output = Inr output"
| "inner_loop img ker i (j # js) output =
     (let region = slice2d img i (i + nrows ker) j (j + ncols ker)
      in case np_mul region ker of
           Inl e \<Rightarrow> Inl e
         | Inr product \<Rightarrow>
             (case set_item output i j (np_sum product) of
                Inl e \<Rightarrow> Inl e
              | Inr output' \<Rightarrow> inner_loop img ker i js output'))"

fun outer_loop :: "ndarray \<Rightarrow> ndarray \<Rightarrow> nat list \<Rightarrow> nat list \<Rightarrow> ndarray \<Rightarrow> error + ndarray" where
  "outer_loop img ker [] js output = Inr output"
| "outer_loop img ker (i # is) js output =
     (case inner_loop img ker i js output of
        Inl e \<Rightarrow> Inl e
      | Inr output' \<Rightarrow> outer_loop img ker is js output')"

text \<open>The image after the \<^verbatim>\<open>if padding == 'same'\<close> block.\<close>

definition pad_stage :: "ndarray \<Rightarrow> ndarray \<Rightarrow> string \<Rightarrow> ndarray" where
  "pad_stage img ker padding =
     (if padding = ''same''
      then (let pad_h = nrows ker div 2; pad_w = ncols ker div 2
            in np_pad img pad_h pad_w)
      else img)"

definition convolve2d :: "ndarray \<Rightarrow> ndarray \<Rightarrow> string \<Rightarrow> error + ndarray" where
  "convolve2d img ker padding =
     (let img' = pad_stage img ker padding;
          output_height = int (nrows img') - int (nrows ker) + 1;
          output_width = int (ncols img') - int (ncols ker) + 1
      in case np_zeros output_height output_width of
           Inl e \<Rightarrow> Inl e
         | Inr output \<Rightarrow>
             outer_loop img' ker [0..<nat output_height] [0..<nat output_width] output)"

text \<open>\<^verbatim>\<open>averaging_kernel = np.ones((3, 3)) / 9\<close>\<close>

definition averaging_kernel :: ndarray where
  "averaging_kernel = \<lparr>nrows = 3, ncols = 3, cells = replicate 3 (replicate 3 (1 / 9))\<rparr>"

section \<open>Auxiliary notions for the statements\<close>

text \<open>
  The value that one pass of the loop body stores at \<open>(i, j)\<close>: the sum of the product of
  the region and the kernel (0 stands in where the product raises, which the lemmas below
  show never happens inside the loops).
\<close>

definition cell_value :: "ndarray \<Rightarrow> ndarray \<Rightarrow> nat \<Rightarrow> nat \<Rightarrow> real" where
  "cell_value img ker i j =
     (case np_mul (slice2d img i (i + nrows ker) j (j + ncols ker)) ker of
        Inl e \<Rightarrow> 0
      | Inr product \<Rightarrow> np_sum product)"

text \<open>The cross-correlation sum at \<open>(i, j)\<close>: the kernel is read unflipped.\<close>

definition window_sum :: "ndarray \<Rightarrow> ndarray \<Rightarrow> nat \<Rightarrow> nat \<Rightarrow> real" where
  "window_sum img ker i j =
     (\<Sum>r<nrows ker. \<Sum>c<ncols ker. cells img ! (i + r) ! (j + c) * cells ker ! r ! c)"

text \<open>The linear combination \<^verbatim>\<open>a * x + b * y\<close> of two arrays.\<close>

definition lincomb :: "real \<Rightarrow> ndarray \<Rightarrow> real \<Rightarrow> ndarray \<Rightarrow> error + ndarray" where
  "lincomb a x b y = np_add (np_scale a x) (np_scale b y)"

text \<open>The 1-by-1 kernel \<^verbatim>\<open>np.array([[1]])\<close>.\<close>

definition identity_kernel :: ndarray where
  "identity_kernel = \<lparr>nrows = 1, ncols = 1, cells = [[1]]\<rparr>"

section \<open>Concrete inputs\<close>

text \<open>A small image with pairwise distinct entries and two kernels of shape \<open>1 \<times> 3\<close>, the
  first of them not symmetric, so that a flipped kernel would give a different response.\<close>

definition demo_image :: ndarray where
  "demo_image = \<lparr>nrows = 2, ncols = 3, cells = [[1, 2, 3], [4, 5, 6]]\<rparr>"

definition demo_kernel :: ndarray where
  "demo_kernel = \<lparr>nrows = 1, ncols = 3, cells = [[1, 0, - 1]]\<rparr>"

definition demo_kernel2 :: ndarray where
  "demo_kernel2 = \<lparr>nrows = 1, ncols = 3, cells = [[1, 2, 1]]\<rparr>"

section \<open>The product and sum inside the loop body\<close>

lemma broadcast_dim_same [simp]: "broadcast_dim n n = Some n"
  by (simp add: broadcast_dim_def)

lemma slice2d_shape:
  assumes "i + kh \<le> nrows img" "j + kw \<le> ncols img"
  shows "nrows (slice2d img i (i + kh) j (j + kw)) = kh"
    and "ncols (slice2d img i (i + kh) j (j + kw)) = kw"
  using assms by (simp_all add: slice2d_def)

lemma slice2d_nth:
  assumes "wf_array img" "i + kh \<le> nrows img" "j + kw \<le> ncols img" "r < kh" "c < kw"
  shows "cells (slice2d img i (i + kh) j (j + kw)) ! r ! c = cells img ! (i + r) ! (j + c)"
proof -
  have len: "length (cells img) = nrows img"
    and row: "length (cells img ! (i + r)) = ncols img"
    using assms by (simp_all add: wf_array_def list_all_length)
  show ?thesis using assms len row by (simp add: slice2d_def)
qed

lemma np_mul_region:
  assumes "i + nrows ker \<le> nrows img" "j + ncols ker \<le> ncols img"
  shows "\<exists>p. np_mul (slice2d img i (i + nrows ker) j (j + ncols ker)) ker = Inr p
           \<and> np_sum p = cell_value img ker i j"
  using assms by (simp add: np_mul_def np_broadcast_def cell_value_def slice2d_shape)

lemma sum_list_concat_rows:
  "sum_list (concat xss) = sum_list (map sum_list (xss :: real list list))"
  by (induction xss) simp_all

lemma sum_list_concat_upt:
  "sum_list (concat (map (\<lambda>r. map (f r) [0..<w]) [0..<h])) = (\<Sum>r<h. \<Sum>c<w. (f r c :: real))"
  by (simp add: sum_list_concat_rows comp_def interv_sum_list_conv_sum_set_nat atLeast0LessThan)

lemma bget_same_shape:
  assumes "nrows x = h" "ncols x = w" "r < h" "c < w"
  shows "bget x r c = cells x ! r ! c"
  using assms by (auto simp: bget_def)

lemma cell_value_window_sum:
  assumes "wf_array img" "i + nrows ker \<le> nrows img" "j + ncols ker \<le> ncols img"
  shows "cell_value img ker i j = window_sum img ker i j"
proof -
  let ?s = "slice2d img i (i + nrows ker) j (j + ncols ker)"
  have sh: "nrows ?s = nrows ker" "ncols ?s = ncols ker"
    using assms by (simp_all add: slice2d_shape)
  have "cell_value img ker i j =
          (\<Sum>r<nrows ker. \<Sum>c<ncols ker. bget ?s r c * bget ker r c)"
    by (simp add: cell_value_def np_mul_def np_broadcast_def sh np_sum_def sum_list_concat_upt)
  also have "\<dots> = window_sum img ker i j"
    unfolding window_sum_def
  proof (intro sum.cong refl)
    fix r c assume "r \<in> {..<nrows ker}" "c \<in> {..<ncols ker}"
    then have rc: "r < nrows ker" "c < ncols ker" by simp_all
    have "bget ?s r c = cells ?s ! r ! c"
      using sh rc by (rule bget_same_shape)
    moreover have "bget ker r c = cells ker ! r ! c"
      using rc by (intro bget_same_shape[OF refl refl])
    moreover have "cells ?s ! r ! c = cells img ! (i + r) ! (j + c)"
      using assms rc by (intro slice2d_nth)
    ultimately show "bget ?s r c * bget ker r c = cells img ! (i + r) ! (j + c) * cells ker ! r ! c"
      by simp
  qed
  finally show ?thesis .
qed

section \<open>What the two loops compute\<close>

lemma fold_row_update:
  assumes "k \<le> length row"
  shows "fold (\<lambda>j r. r[j := f j]) [0..<k] row = map f [0..<k] @ drop k row"
  using assms
proof (induction k)
  case 0
  then show ?case by simp
next
  case (Suc k)
  then have k: "k < length row" by simp
  have "fold (\<lambda>j r. r[j := f j]) [0..<Suc k] row = (map f [0..<k] @ drop k row)[k := f k]"
    using Suc by simp
  also have "\<dots> = map f [0..<k] @ (drop k row)[0 := f k]"
    by (simp add: list_update_append)
  also have "(drop k row)[0 := f k] = f k # drop (Suc k) row"
    using k by (simp add: Cons_nth_drop_Suc[symmetric])
  finally show ?case by simp
qed

lemma fold_row_update_full:
  "length row = n \<Longrightarrow> fold (\<lambda>j r. r[j := f j]) [0..<n] row = map f [0..<n]"
  by (simp add: fold_row_update)

lemma inner_loop_run:
  assumes "i < nrows out" "length (cells out) = nrows out"
    and "i + nrows ker \<le> nrows img"
    and "\<forall>j\<in>set js. j < ncols out \<and> j + ncols ker \<le> ncols img"
  shows "inner_loop img ker i js out =
           Inr (out\<lparr>cells := (cells out)
                  [i := fold (\<lambda>j r. r[j := cell_value img ker i j]) js (cells out ! i)]\<rparr>)"
  using assms
proof (induction js arbitrary: out)
  case Nil
  then show ?case by simp
next
  case (Cons j js)
  from Cons.prems obtain p where
    p: "np_mul (slice2d img i (i + nrows ker) j (j + ncols ker)) ker = Inr p"
       "np_sum p = cell_value img ker i j"
    using np_mul_region[of i ker img j] by auto
  let ?out = "out\<lparr>cells := (cells out)[i := (cells out ! i)[j := cell_value img ker i j]]\<rparr>"
  have st: "set_item out i j (cell_value img ker i j) = Inr ?out"
    using Cons.prems by (simp add: set_item_def)
  have "inner_loop img ker i js ?out =
          Inr (?out\<lparr>cells := (cells ?out)
                  [i := fold (\<lambda>j r. r[j := cell_value img ker i j]) js (cells ?out ! i)]\<rparr>)"
    using Cons.prems by (intro Cons.IH) simp_all
  then show ?case
    using p st Cons.prems(1,2) by simp
qed

lemma inner_loop_row:
  assumes "i < nrows out" "length (cells out) = nrows out" "length (cells out ! i) = w"
    and "w \<le> ncols out" "i + nrows ker \<le> nrows img" "int w \<le> int (ncols img) - int (ncols ker) + 1"
  shows "inner_loop img ker i [0..<w] out =
           Inr (out\<lparr>cells := (cells out)[i := map (cell_value img ker i) [0..<w]]\<rparr>)"
proof -
  have "\<forall>j\<in>set [0..<w]. j < ncols out \<and> j + ncols ker \<le> ncols img"
    using assms by auto
  then show ?thesis
    using assms by (simp add: inner_loop_run fold_row_update_full)
qed

lemma outer_loop_run:
  assumes "length (cells out) = nrows out" "\<forall>r\<in>set (cells out). length r = w"
    and "w \<le> ncols out" "int w \<le> int (ncols img) - int (ncols ker) + 1"
    and "\<forall>i\<in>set is. i < nrows out \<and> i + nrows ker \<le> nrows img"
  shows "outer_loop img ker is [0..<w] out =
           Inr (out\<lparr>cells := fold (\<lambda>i cs. cs[i := map (cell_value img ker i) [0..<w]]) is (cells out)\<rparr>)"
  using assms
proof (induction "is" arbitrary: out)
  case Nil
  then show ?case by simp
next
  case (Cons i "is")
  let ?out = "out\<lparr>cells := (cells out)[i := map (cell_value img ker i) [0..<w]]\<rparr>"
  have i: "i < nrows out" "i + nrows ker \<le> nrows img" using Cons.prems by simp_all
  have "length (cells out ! i) = w" using Cons.prems i by simp
  then have inner: "inner_loop img ker i [0..<w] out = Inr ?out"
    using Cons.prems i by (intro inner_loop_row) simp_all
  have rows: "\<forall>r\<in>set (cells ?out). length r = w"
    using Cons.prems(2) by (auto dest!: set_update_subset_insert[THEN subsetD])
  have "outer_loop img ker is [0..<w] ?out =
          Inr (?out\<lparr>cells := fold (\<lambda>i cs. cs[i := map (cell_value img ker i) [0..<w]]) is (cells ?out)\<rparr>)"
    using Cons.prems rows by (intro Cons.IH) simp_all
  then show ?case using inner by simp
qed

lemma convolve2d_eq:
  "convolve2d img ker padding =
     (let img' = pad_stage img ker padding;
          oh = int (nrows img') - int (nrows ker) + 1;
          ow = int (ncols img') - int (ncols ker) + 1
      in if oh < 0 \<or> ow < 0 then Inl ValueError
         else Inr \<lparr>nrows = nat oh, ncols = nat ow,
                   cells = map (\<lambda>i. map (cell_value img' ker i) [0..<nat ow]) [0..<nat oh]\<rparr>)"
proof -
  define img' where "img' = pad_stage img ker padding"
  define oh where "oh = int (nrows img') - int (nrows ker) + 1"
  define ow where "ow = int (ncols img') - int (ncols ker) + 1"
  show ?thesis
  proof (cases "oh < 0 \<or> ow < 0")
    case True
    then show ?thesis
      by (auto simp: convolve2d_def Let_def np_zeros_def img'_def oh_def ow_def)
  next
    case False
    define out where "out = \<lparr>nrows = nat oh, ncols = nat ow,
                cells = replicate (nat oh) (replicate (nat ow) (0::real))\<rparr>"
    have z: "np_zeros oh ow = Inr out" using False by (simp add: np_zeros_def out_def)
    have "outer_loop img' ker [0..<nat oh] [0..<nat ow] out =
            Inr (out\<lparr>cells := fold (\<lambda>i cs. cs[i := map (cell_value img' ker i) [0..<nat ow]])
                   [0..<nat oh] (cells out)\<rparr>)"
      using False by (intro outer_loop_run) (auto simp: out_def oh_def ow_def)
    moreover have "fold (\<lambda>i cs. cs[i := map (cell_value img' ker i) [0..<nat ow]])
                   [0..<nat oh] (cells out) = map (\<lambda>i. map (cell_value img' ker i) [0..<nat ow]) [0..<nat oh]"
      by (intro fold_row_update_full) (simp add: out_def)
    ultimately have "outer_loop img' ker [0..<nat oh] [0..<nat ow] out = Inr \<lparr>nrows = nat oh, ncols = nat ow,
                   cells = map (\<lambda>i. map (cell_value img' ker i) [0..<nat ow]) [0..<nat oh]\<rparr>"
      by (simp add: out_def)
    then show ?thesis
      using False z
      by (simp add: convolve2d_def Let_def img'_def[symmetric] oh_def[symmetric] ow_def[symmetric])
  qed
qed

section \<open>Output shapes\<close>

lemma convolve2d_ok:
  assumes "img' = pad_stage img ker padding"
    and "oh + nrows ker = nrows img' + 1" "ow + ncols ker = ncols img' + 1"
  shows "convolve2d img ker padding =
           Inr \<lparr>nrows = oh, ncols = ow,
                cells = map (\<lambda>i. map (cell_value img' ker i) [0..<ow]) [0..<oh]\<rparr>"
proof -
  have "int (nrows img') - int (nrows ker) + 1 = int oh"
       "int (ncols img') - int (ncols ker) + 1 = int ow"
    using assms(2,3) by linarith+
  then show ?thesis
    using assms(1) by (simp add: convolve2d_eq Let_def)
qed

lemma wf_array_table [simp]: "wf_array \<lparr>nrows = h, ncols = w, cells = map (\<lambda>i. map (f i) [0..<w]) [0..<h]\<rparr>"
  by (simp add: wf_array_def list_all_iff)

lemma convolve2d_ok_shape:
  assumes "img' = pad_stage img ker padding"
    and "oh + nrows ker = nrows img' + 1" "ow + ncols ker = ncols img' + 1"
  shows "\<exists>out. convolve2d img ker padding = Inr out \<and> wf_array out
           \<and> nrows out = oh \<and> ncols out = ow"
  using convolve2d_ok[OF assms] by (simp add: wf_array_table)

lemma convolve2d_fail:
  assumes "img' = pad_stage img ker padding"
    and "nrows img' + 1 < nrows ker \<or> ncols img' + 1 < ncols ker"
  shows "convolve2d img ker padding = Inl ValueError"
  using assms by (auto simp: convolve2d_eq Let_def)

lemma pad_stage_valid: "padding \<noteq> ''same'' \<Longrightarrow> pad_stage img ker padding = img"
  by (simp add: pad_stage_def)

lemma pad_stage_same_shape:
  "nrows (pad_stage img ker ''same'') = nrows img + 2 * (nrows ker div 2)"
  "ncols (pad_stage img ker ''same'') = ncols img + 2 * (ncols ker div 2)"
  by (simp_all add: pad_stage_def np_pad_def Let_def)

section \<open>Padding\<close>

lemma wf_array_np_pad:
  assumes "wf_array a"
  shows "wf_array (np_pad a ph pw)"
  using assms by (auto simp: wf_array_def np_pad_def Let_def list_all_iff)

lemma np_pad_nth:
  assumes "wf_array a" "i < nrows a + 2 * ph" "j < ncols a + 2 * pw"
  shows "cells (np_pad a ph pw) ! i ! j =
           (if ph \<le> i \<and> i < ph + nrows a \<and> pw \<le> j \<and> j < pw + ncols a
            then cells a ! (i - ph) ! (j - pw) else 0)"
proof -
  have len: "length (cells a) = nrows a"
    and row: "\<And>k. k < nrows a \<Longrightarrow> length (cells a ! k) = ncols a"
    using assms(1) by (simp_all add: wf_array_def list_all_length)
  consider (top) "i < ph" | (mid) "ph \<le> i" "i < ph + nrows a" | (bot) "ph + nrows a \<le> i"
    by linarith
  then show ?thesis
  proof cases
    case top
    then show ?thesis using assms(3) by (simp add: np_pad_def Let_def nth_append)
  next
    case mid
    then have k: "i - ph < nrows a" by linarith
    have "cells (np_pad a ph pw) ! i = replicate pw 0 @ cells a ! (i - ph) @ replicate pw 0"
      using mid k len by (simp add: np_pad_def Let_def nth_append)
    then show ?thesis
      using mid assms(3) row[OF k] by (auto simp: nth_append)
  next
    case bot
    then have "\<not> i < ph" "\<not> i - ph < nrows a" "i - ph - nrows a < ph"
      using assms(2) by linarith+
    then have "cells (np_pad a ph pw) ! i = replicate (ncols a + 2 * pw) 0"
      using len by (simp add: np_pad_def Let_def nth_append)
    then show ?thesis using bot assms(3) by simp
  qed
qed

lemma wf_array_pad_stage: "wf_array img \<Longrightarrow> wf_array (pad_stage img ker padding)"
  by (simp add: pad_stage_def Let_def wf_array_np_pad)

lemma wf_demo_image: "wf_array demo_image"
  by (simp add: wf_array_def demo_image_def)

lemma pad_demo:
  "pad_stage demo_image demo_kernel ''same'' =
     \<lparr>nrows = 2, ncols = 5, cells = [[0, 1, 2, 3, 0], [0, 4, 5, 6, 0]]\<rparr>"
  by code_simp

section \<open>The identity kernel and the averaging kernel\<close>

lemma pad_stage_identity_kernel: "pad_stage img identity_kernel padding = img"
  by (simp add: pad_stage_def identity_kernel_def np_pad_def)

lemma window_sum_identity_kernel: "window_sum img identity_kernel i j = cells img ! i ! j"
  by (simp add: window_sum_def identity_kernel_def)

lemma convolve2d_identity_any:
  assumes "wf_array img"
  shows "convolve2d img identity_kernel padding = Inr img"
proof -
  have len: "length (cells img) = nrows img"
    and row: "\<And>k. k < nrows img \<Longrightarrow> length (cells img ! k) = ncols img"
    using assms by (simp_all add: wf_array_def list_all_length)
  have "convolve2d img identity_kernel padding =
      Inr \<lparr>nrows = nrows img, ncols = ncols img,
           cells = map (\<lambda>i. map (cell_value img identity_kernel i) [0..<ncols img]) [0..<nrows img]\<rparr>"
  proof (rule convolve2d_ok)
    show "img = pad_stage img identity_kernel padding"
      by (simp add: pad_stage_identity_kernel)
  qed (simp_all add: identity_kernel_def)
  moreover have "map (\<lambda>i. map (cell_value img identity_kernel i) [0..<ncols img]) [0..<nrows img]
                  = cells img"
  proof (rule nth_equalityI)
    show "length (map (\<lambda>i. map (cell_value img identity_kernel i) [0..<ncols img]) [0..<nrows img])
            = length (cells img)"
      by (simp add: len)
  next
    fix i assume "i < length (map (\<lambda>i. map (cell_value img identity_kernel i) [0..<ncols img]) [0..<nrows img])"
    then have i: "i < nrows img" by simp
    have "map (cell_value img identity_kernel i) [0..<ncols img] = cells img ! i"
    proof (rule nth_equalityI)
      show "length (map (cell_value img identity_kernel i) [0..<ncols img]) = length (cells img ! i)"
        using row[OF i] by simp
    next
      fix j assume "j < length (map (cell_value img identity_kernel i) [0..<ncols img])"
      then have j: "j < ncols img" by simp
      have "cell_value img identity_kernel i j = window_sum img identity_kernel i j"
        using assms i j by (intro cell_value_window_sum) (simp_all add: identity_kernel_def)
      then show "map (cell_value img identity_kernel i) [0..<ncols img] ! j = cells img ! i ! j"
        using j by (simp add: window_sum_identity_kernel)
    qed
    then show "map (\<lambda>i. map (cell_value img identity_kernel i) [0..<ncols img]) [0..<nrows img] ! i
                 = cells img ! i"
      using i by simp
  qed
  ultimately show ?thesis by simp
qed

lemma averaging_response:
  "convolve2d (np_full 3 3 255) averaging_kernel ''same'' =
     Inr \<lparr>nrows = 3, ncols = 3,
          cells = [[255 * 4 / 9, 170, 255 * 4 / 9], [170, 255, 170],
                   [255 * 4 / 9, 170, 255 * 4 / 9]]\<rparr>"
  by code_simp

section \<open>Linear combinations of kernels\<close>

lemma np_scale_shape [simp]: "nrows (np_scale a x) = nrows x" "ncols (np_scale a x) = ncols x"
  by (simp_all add: np_scale_def)

lemma np_scale_nth:
  assumes "wf_array x" "i < nrows x" "j < ncols x"
  shows "cells (np_scale a x) ! i ! j = a * cells x ! i ! j"
proof -
  have "length (cells x) = nrows x" "length (cells x ! i) = ncols x"
    using assms by (simp_all add: wf_array_def list_all_length)
  then show ?thesis using assms by (simp add: np_scale_def)
qed

lemma bget_np_scale:
  assumes "wf_array x" "i < nrows x" "j < ncols x"
  shows "bget (np_scale a x) i j = a * cells x ! i ! j"
proof -
  have "bget (np_scale a x) i j = cells (np_scale a x) ! i ! j"
    using assms(2,3) by (intro bget_same_shape[where h = "nrows x" and w = "ncols x"]) simp_all
  then show ?thesis using assms by (simp add: np_scale_nth)
qed

lemma table_cong:
  assumes "\<And>i j. i < h \<Longrightarrow> j < w \<Longrightarrow> f i j = g i j"
  shows "map (\<lambda>i. map (f i) [0..<w]) [0..<h] = map (\<lambda>i. map (g i) [0..<w]) [0..<h]"
  using assms by simp

lemma lincomb_same_shape:
  assumes "wf_array x" "wf_array y" "nrows x = nrows y" "ncols x = ncols y"
  shows "lincomb a x b y =
           Inr \<lparr>nrows = nrows y, ncols = ncols y,
                cells = map (\<lambda>i. map (\<lambda>j. a * cells x ! i ! j + b * cells y ! i ! j) [0..<ncols y])
                          [0..<nrows y]\<rparr>"
proof -
  have "map (\<lambda>i. map (\<lambda>j. bget (np_scale a x) i j + bget (np_scale b y) i j) [0..<ncols y]) [0..<nrows y]
      = map (\<lambda>i. map (\<lambda>j. a * cells x ! i ! j + b * cells y ! i ! j) [0..<ncols y]) [0..<nrows y]"
    using assms by (intro table_cong) (simp add: bget_np_scale)
  then show ?thesis
    using assms(3,4) by (simp add: lincomb_def np_add_def np_broadcast_def)
qed

lemma wf_array_table_nth:
  "i < h \<Longrightarrow> j < w \<Longrightarrow> cells \<lparr>nrows = h, ncols = w, cells = map (\<lambda>i. map (f i) [0..<w]) [0..<h]\<rparr> ! i ! j = f i j"
  by simp

lemma window_sum_lincomb:
  assumes "\<And>r c. r < nrows k \<Longrightarrow> c < ncols k \<Longrightarrow>
             cells k ! r ! c = a * cells k1 ! r ! c + b * cells k2 ! r ! c"
    and "nrows k1 = nrows k" "ncols k1 = ncols k" "nrows k2 = nrows k" "ncols k2 = ncols k"
  shows "window_sum img k i j = a * window_sum img k1 i j + b * window_sum img k2 i j"
proof -
  have "window_sum img k i j =
          (\<Sum>r<nrows k. \<Sum>c<ncols k.
             a * (cells img ! (i + r) ! (j + c) * cells k1 ! r ! c)
             + b * (cells img ! (i + r) ! (j + c) * cells k2 ! r ! c))"
    unfolding window_sum_def
    by (intro sum.cong refl) (simp add: assms(1) algebra_simps)
  also have "\<dots> = a * window_sum img k1 i j + b * window_sum img k2 i j"
    by (simp add: window_sum_def assms(2-) sum.distrib sum_distrib_left)
  finally show ?thesis .
qed

section \<open>Kernels larger than the image\<close>

text \<open>
  Claim C1, as amended. The routine has no check of the kernel against the image and no
  error of its own: in \<open>'valid'\<close> mode the only failure is the \<^verbatim>\<open>ValueError\<close> that
  \<^verbatim>\<open>np.zeros\<close> raises for a negative dimension. So for a kernel with \<open>Kh > H\<close> or
  \<open>Kw > W\<close>: when \<open>Kh > H + 1\<close> or \<open>Kw > W + 1\<close> the call fails with \<^verbatim>\<open>ValueError\<close>;
  otherwise the kernel exceeds the image by exactly one row or column (and by no more in the
  other direction) and the call returns the empty array of shape
  \<open>(H + 1 - Kh) \<times> (W + 1 - Kw)\<close>, one of whose extents is \<open>0\<close>. The claim as stated (every
  such call fails) does not hold: a \<open>5 \<times> 5\<close> kernel on a \<open>4 \<times> 4\<close> image returns the
  \<open>0 \<times> 0\<close> array, as the evaluation after the witness shows.
\<close>

theorem convolve2d_valid_oversized_kernel:
  assumes "nrows img < nrows ker \<or> ncols img < ncols ker"
  shows "(nrows img + 1 < nrows ker \<or> ncols img + 1 < ncols ker
            \<longrightarrow> convolve2d img ker ''valid'' = Inl ValueError)
       \<and> (nrows ker \<le> nrows img + 1 \<and> ncols ker \<le> ncols img + 1
            \<longrightarrow> convolve2d img ker ''valid'' =
                  Inr \<lparr>nrows = nrows img + 1 - nrows ker, ncols = ncols img + 1 - ncols ker,
                       cells = replicate (nrows img + 1 - nrows ker) []\<rparr>)"
proof (intro conjI impI)
  assume "nrows img + 1 < nrows ker \<or> ncols img + 1 < ncols ker"
  then show "convolve2d img ker ''valid'' = Inl ValueError"
    by (intro convolve2d_fail[where img' = img]) (simp_all add: pad_stage_valid)
next
  assume le: "nrows ker \<le> nrows img + 1 \<and> ncols ker \<le> ncols img + 1"
  define oh ow where "oh = nrows img + 1 - nrows ker" and "ow = ncols img + 1 - ncols ker"
  have dims: "oh + nrows ker = nrows img + 1" "ow + ncols ker = ncols img + 1"
    using le by (simp_all add: oh_def ow_def)
  have res: "convolve2d img ker ''valid'' =
      Inr \<lparr>nrows = oh, ncols = ow, cells = map (\<lambda>i. map (cell_value img ker i) [0..<ow]) [0..<oh]\<rparr>"
    using dims by (intro convolve2d_ok) (simp_all add: pad_stage_valid)
  from assms le have "oh = 0 \<or> ow = 0"
    unfolding oh_def ow_def by linarith
  then have "map (\<lambda>i. map (cell_value img ker i) [0..<ow]) [0..<oh] = replicate oh []"
    by (auto simp: map_replicate_const)
  with res show "convolve2d img ker ''valid'' =
      Inr \<lparr>nrows = nrows img + 1 - nrows ker, ncols = ncols img + 1 - ncols ker,
           cells = replicate (nrows img + 1 - nrows ker) []\<rparr>"
    by (simp add: oh_def ow_def)
qed

theorem convolve2d_valid_oversized_kernel_witness:
  "(nrows (np_full 4 4 1) < nrows (np_full 5 3 1) \<or> ncols (np_full 4 4 1) < ncols (np_full 5 3 1))
   \<and> convolve2d (np_full 4 4 1) (np_full 5 3 1) ''valid''
       = Inr \<lparr>nrows = 0, ncols = 2, cells = []\<rparr>
   \<and> (nrows (np_full 4 4 1) < nrows (np_full 7 3 1) \<or> ncols (np_full 4 4 1) < ncols (np_full 7 3 1))
   \<and> convolve2d (np_full 4 4 1) (np_full 7 3 1) ''valid'' = Inl ValueError"
proof -
  have h1: "nrows (np_full 4 4 1) < nrows (np_full 5 3 1) \<or> ncols (np_full 4 4 1) < ncols (np_full 5 3 1)"
    and h2: "nrows (np_full 4 4 1) < nrows (np_full 7 3 1) \<or> ncols (np_full 4 4 1) < ncols (np_full 7 3 1)"
    by (simp_all add: np_full_def)
  show ?thesis
    using h1 h2 convolve2d_valid_oversized_kernel[OF h1] convolve2d_valid_oversized_kernel[OF h2]
    by (simp add: np_full_def)
qed

theorem convolve2d_valid_5x5_on_4x4_returns:
  "convolve2d \<lparr>nrows = 4, ncols = 4,
                cells = [[1, 2, 3, 4], [5, 6, 7, 8], [9, 10, 11, 12], [13, 14, 15, 16]]\<rparr>
     (np_full 5 5 1) ''valid'' = Inr \<lparr>nrows = 0, ncols = 0, cells = []\<rparr>"
  by code_simp

section \<open>Kernels of even or zero extent\<close>

text \<open>
  Claim C2, as amended. The routine never inspects the parity of the kernel's extents, nor
  whether they are zero. For a kernel whose height or width is even (zero included): in
  \<open>'same'\<close> mode the call always returns an array; in \<open>'valid'\<close> mode it returns an array of
  shape \<open>(H + 1 - Kh) \<times> (W + 1 - Kw)\<close> whenever \<open>Kh \<le> H + 1\<close> and \<open>Kw \<le> W + 1\<close>, and fails,
  with \<^verbatim>\<open>ValueError\<close> from \<^verbatim>\<open>np.zeros\<close>, only when the kernel exceeds the image by
  more than one row or column. The claim as stated (every such call fails) does not hold: a
  \<open>2 \<times> 3\<close> kernel on a \<open>3 \<times> 3\<close> image returns an array in both modes, as the evaluation
  after the witness shows.
\<close>

theorem convolve2d_even_kernel_accepted:
  assumes "even (nrows ker) \<or> even (ncols ker)"
  shows "(\<exists>out. convolve2d img ker ''same'' = Inr out \<and> wf_array out)
       \<and> (nrows ker \<le> nrows img + 1 \<and> ncols ker \<le> ncols img + 1
            \<longrightarrow> (\<exists>out. convolve2d img ker ''valid'' = Inr out \<and> wf_array out
                   \<and> nrows out = nrows img + 1 - nrows ker
                   \<and> ncols out = ncols img + 1 - ncols ker))
       \<and> (nrows img + 1 < nrows ker \<or> ncols img + 1 < ncols ker
            \<longrightarrow> convolve2d img ker ''valid'' = Inl ValueError)"
proof (intro conjI impI)
  define img' where "img' = pad_stage img ker ''same''"
  have par: "2 * (n div 2) + 1 = n + (if even n then 1 else 0)" for n :: nat
    by (cases "even n") (simp_all add: odd_two_times_div_two_succ)
  have "(nrows img + (if even (nrows ker) then 1 else 0)) + nrows ker = nrows img' + 1"
       "(ncols img + (if even (ncols ker) then 1 else 0)) + ncols ker = ncols img' + 1"
    using par[of "nrows ker"] par[of "ncols ker"]
    by (simp_all add: img'_def pad_stage_same_shape)
  with img'_def have "\<exists>out. convolve2d img ker ''same'' = Inr out \<and> wf_array out
             \<and> nrows out = nrows img + (if even (nrows ker) then 1 else 0)
             \<and> ncols out = ncols img + (if even (ncols ker) then 1 else 0)"
    by (rule convolve2d_ok_shape)
  then show "\<exists>out. convolve2d img ker ''same'' = Inr out \<and> wf_array out"
    by blast
next
  assume "nrows ker \<le> nrows img + 1 \<and> ncols ker \<le> ncols img + 1"
  then have "(nrows img + 1 - nrows ker) + nrows ker = nrows img + 1"
    "(ncols img + 1 - ncols ker) + ncols ker = ncols img + 1"
    by simp_all
  moreover have "img = pad_stage img ker ''valid''" by (simp add: pad_stage_valid)
  ultimately show "\<exists>out. convolve2d img ker ''valid'' = Inr out \<and> wf_array out
                   \<and> nrows out = nrows img + 1 - nrows ker
                   \<and> ncols out = ncols img + 1 - ncols ker"
    by (intro convolve2d_ok_shape)
next
  assume "nrows img + 1 < nrows ker \<or> ncols img + 1 < ncols ker"
  then show "convolve2d img ker ''valid'' = Inl ValueError"
    by (intro convolve2d_fail[where img' = img]) (simp_all add: pad_stage_valid)
qed

theorem convolve2d_even_kernel_accepted_witness:
  "(even (nrows (np_full 2 3 1)) \<or> even (ncols (np_full 2 3 1)))
   \<and> (\<exists>out. convolve2d (np_full 3 3 1) (np_full 2 3 1) ''same'' = Inr out \<and> wf_array out)
   \<and> (\<exists>out. convolve2d (np_full 3 3 1) (np_full 2 3 1) ''valid'' = Inr out \<and> wf_array out
          \<and> nrows out = 2 \<and> ncols out = 1)
   \<and> (even (nrows (np_full 6 3 1)) \<or> even (ncols (np_full 6 3 1)))
   \<and> convolve2d (np_full 3 3 1) (np_full 6 3 1) ''valid'' = Inl ValueError"
proof -
  have h1: "even (nrows (np_full 2 3 1)) \<or> even (ncols (np_full 2 3 1))"
    and h2: "even (nrows (np_full 6 3 1)) \<or> even (ncols (np_full 6 3 1))"
    by (simp_all add: np_full_def)
  have a: "nrows (np_full 3 3 1) + 1 - nrows (np_full 2 3 1) = 2"
    "ncols (np_full 3 3 1) + 1 - ncols (np_full 2 3 1) = 1"
    "nrows (np_full 2 3 1) \<le> nrows (np_full 3 3 1) + 1 \<and> ncols (np_full 2 3 1) \<le> ncols (np_full 3 3 1) + 1"
    "nrows (np_full 3 3 1) + 1 < nrows (np_full 6 3 1) \<or> ncols (np_full 3 3 1) + 1 < ncols (np_full 6 3 1)"
    by (simp_all add: np_full_def)
  show ?thesis
    using h1 h2 a convolve2d_even_kernel_accepted[OF h1, of "np_full 3 3 1"]
      convolve2d_even_kernel_accepted[OF h2, of "np_full 3 3 1"]
    by metis
qed

theorem convolve2d_2x3_kernel_returns:
  "convolve2d (np_full 3 3 1) \<lparr>nrows = 2, ncols = 3, cells = [[1, 1, 1], [1, 1, 1]]\<rparr> ''valid''
     = Inr \<lparr>nrows = 2, ncols = 1, cells = [[6], [6]]\<rparr>
   \<and> convolve2d (np_full 3 3 1) \<lparr>nrows = 2, ncols = 3, cells = [[1, 1, 1], [1, 1, 1]]\<rparr> ''same''
     = Inr \<lparr>nrows = 4, ncols = 3, cells = [[2, 3, 2], [4, 6, 4], [4, 6, 4], [2, 3, 2]]\<rparr>"
  by code_simp

section \<open>The response is a cross-correlation\<close>

text \<open>
  Claim C3. Let \<open>H' \<times> W'\<close> be the shape of the image after the padding step and
  \<open>Kh \<times> Kw\<close> the shape of the kernel. For every \<open>i < H' - Kh + 1\<close> and \<open>j < W' - Kw + 1\<close>
  the call returns an array whose entry at \<open>(i, j)\<close> is the sum over \<open>r < Kh\<close>, \<open>c < Kw\<close> of
  \<open>image[i + r][j + c] * kernel[r][c]\<close>, the image being the padded one: cross-correlation,
  with the kernel read unflipped.
\<close>

theorem convolve2d_is_cross_correlation:
  assumes "wf_array img"
    and "int i < int (nrows (pad_stage img ker padding)) - int (nrows ker) + 1"
    and "int j < int (ncols (pad_stage img ker padding)) - int (ncols ker) + 1"
  shows "\<exists>out. convolve2d img ker padding = Inr out
           \<and> cells out ! i ! j =
               (\<Sum>r<nrows ker. \<Sum>c<ncols ker.
                  cells (pad_stage img ker padding) ! (i + r) ! (j + c) * cells ker ! r ! c)"
proof -
  define img' where "img' = pad_stage img ker padding"
  define oh ow where "oh = nrows img' + 1 - nrows ker" and "ow = ncols img' + 1 - ncols ker"
  have ij: "i < oh" "j < ow"
    using assms(2,3) unfolding oh_def ow_def img'_def by linarith+
  then have dims: "oh + nrows ker = nrows img' + 1" "ow + ncols ker = ncols img' + 1"
    unfolding oh_def ow_def by linarith+
  have fit: "i + nrows ker \<le> nrows img'" "j + ncols ker \<le> ncols img'"
    using ij dims by linarith+
  have "wf_array img'"
    unfolding img'_def using assms(1) by (rule wf_array_pad_stage)
  then have "cell_value img' ker i j = window_sum img' ker i j"
    using fit by (rule cell_value_window_sum)
  moreover have "convolve2d img ker padding =
      Inr \<lparr>nrows = oh, ncols = ow, cells = map (\<lambda>i. map (cell_value img' ker i) [0..<ow]) [0..<oh]\<rparr>"
    using img'_def dims by (rule convolve2d_ok)
  ultimately show ?thesis
    using ij by (simp add: window_sum_def img'_def)
qed

theorem convolve2d_is_cross_correlation_witness:
  "wf_array demo_image
   \<and> int 0 < int (nrows (pad_stage demo_image demo_kernel ''same'')) - int (nrows demo_kernel) + 1
   \<and> int 2 < int (ncols (pad_stage demo_image demo_kernel ''same'')) - int (ncols demo_kernel) + 1
   \<and> (\<exists>out. convolve2d demo_image demo_kernel ''same'' = Inr out \<and> cells out ! 0 ! 2 = 2)"
proof -
  have h: "wf_array demo_image"
    "int 0 < int (nrows (pad_stage demo_image demo_kernel ''same'')) - int (nrows demo_kernel) + 1"
    "int 2 < int (ncols (pad_stage demo_image demo_kernel ''same'')) - int (ncols demo_kernel) + 1"
    by (simp_all add: wf_demo_image pad_demo) (simp_all add: demo_kernel_def)
  have "(\<Sum>r<nrows demo_kernel. \<Sum>c<ncols demo_kernel.
           cells (pad_stage demo_image demo_kernel ''same'') ! (0 + r) ! (2 + c)
             * cells demo_kernel ! r ! c) = 2"
    by (simp add: pad_demo) (simp add: demo_kernel_def lessThan_Suc eval_nat_numeral)
  then show ?thesis
    using h convolve2d_is_cross_correlation[OF h] by simp
qed

section \<open>Zero padding\<close>

text \<open>
  Claim C4. In \<open>'same'\<close> mode the image that enters the loops is the input image with
  \<open>Kh div 2\<close> rows added above and below and \<open>Kw div 2\<close> columns added left and right; its
  shape is \<open>(H + 2 (Kh div 2)) \<times> (W + 2 (Kw div 2))\<close>, the input sits unchanged in the middle
  and every added entry is \<open>0\<close>. In \<open>'valid'\<close> mode the image enters the loops as it is.
\<close>

theorem pad_stage_zero_padding:
  assumes "wf_array img"
  shows "wf_array (pad_stage img ker ''same'')
       \<and> nrows (pad_stage img ker ''same'') = nrows img + 2 * (nrows ker div 2)
       \<and> ncols (pad_stage img ker ''same'') = ncols img + 2 * (ncols ker div 2)
       \<and> (\<forall>i < nrows img + 2 * (nrows ker div 2). \<forall>j < ncols img + 2 * (ncols ker div 2).
            cells (pad_stage img ker ''same'') ! i ! j =
              (if nrows ker div 2 \<le> i \<and> i < nrows ker div 2 + nrows img
                  \<and> ncols ker div 2 \<le> j \<and> j < ncols ker div 2 + ncols img
               then cells img ! (i - nrows ker div 2) ! (j - ncols ker div 2)
               else 0))
       \<and> pad_stage img ker ''valid'' = img"
proof (intro conjI allI impI)
  show "wf_array (pad_stage img ker ''same'')"
    using assms by (rule wf_array_pad_stage)
next
  fix i j
  assume "i < nrows img + 2 * (nrows ker div 2)" "j < ncols img + 2 * (ncols ker div 2)"
  with assms show "cells (pad_stage img ker ''same'') ! i ! j =
              (if nrows ker div 2 \<le> i \<and> i < nrows ker div 2 + nrows img
                  \<and> ncols ker div 2 \<le> j \<and> j < ncols ker div 2 + ncols img
               then cells img ! (i - nrows ker div 2) ! (j - ncols ker div 2)
               else 0)"
    unfolding pad_stage_def Let_def by (simp only: np_pad_nth if_True refl)
qed (simp_all add: pad_stage_same_shape pad_stage_valid)

theorem pad_stage_zero_padding_witness:
  "wf_array demo_image
   \<and> wf_array (pad_stage demo_image demo_kernel ''same'')
   \<and> nrows (pad_stage demo_image demo_kernel ''same'') = 2
   \<and> ncols (pad_stage demo_image demo_kernel ''same'') = 5
   \<and> cells (pad_stage demo_image demo_kernel ''same'') ! 0 ! 0 = 0
   \<and> cells (pad_stage demo_image demo_kernel ''same'') ! 1 ! 4 = 0
   \<and> cells (pad_stage demo_image demo_kernel ''same'') ! 1 ! 2 = cells demo_image ! 1 ! 1
   \<and> pad_stage demo_image demo_kernel ''valid'' = demo_image"
proof -
  note t = pad_stage_zero_padding[OF wf_demo_image, of demo_kernel]
  note c = t[THEN conjunct2, THEN conjunct2, THEN conjunct2, THEN conjunct1, rule_format]
  have "cells (pad_stage demo_image demo_kernel ''same'') ! 0 ! 0 = 0"
    "cells (pad_stage demo_image demo_kernel ''same'') ! 1 ! 4 = 0"
    "cells (pad_stage demo_image demo_kernel ''same'') ! 1 ! 2 = cells demo_image ! 1 ! 1"
    using c[of 0 0] c[of 1 4] c[of 1 2] by (simp_all add: demo_image_def demo_kernel_def)
  moreover have "nrows demo_image + 2 * (nrows demo_kernel div 2) = 2"
    "ncols demo_image + 2 * (ncols demo_kernel div 2) = 5"
    by (simp_all add: demo_image_def demo_kernel_def)
  ultimately show ?thesis
    using t wf_demo_image by simp
qed

section \<open>Shape of the response\<close>

text \<open>
  Claim C5. For every image of shape \<open>H \<times> W\<close> and every kernel of odd height \<open>Kh \<le> H\<close> and
  odd width \<open>Kw \<le> W\<close>, the call in \<open>'valid'\<close> mode returns an array, and its shape is
  \<open>(H - Kh + 1) \<times> (W - Kw + 1)\<close>.
\<close>

theorem convolve2d_valid_shape:
  assumes "odd (nrows ker)" "odd (ncols ker)"
    and "nrows ker \<le> nrows img" "ncols ker \<le> ncols img"
  shows "\<exists>out. convolve2d img ker ''valid'' = Inr out \<and> wf_array out
           \<and> nrows out = nrows img - nrows ker + 1 \<and> ncols out = ncols img - ncols ker + 1"
proof -
  have "img = pad_stage img ker ''valid''" by (simp add: pad_stage_valid)
  moreover have "(nrows img - nrows ker + 1) + nrows ker = nrows img + 1"
    and "(ncols img - ncols ker + 1) + ncols ker = ncols img + 1"
    using assms(3,4) by linarith+
  ultimately show ?thesis
    by (rule convolve2d_ok_shape)
qed

theorem convolve2d_valid_shape_witness:
  "odd (nrows (np_full 3 3 1)) \<and> odd (ncols (np_full 3 3 1))
   \<and> nrows (np_full 3 3 1) \<le> nrows (np_full 5 4 2) \<and> ncols (np_full 3 3 1) \<le> ncols (np_full 5 4 2)
   \<and> (\<exists>out. convolve2d (np_full 5 4 2) (np_full 3 3 1) ''valid'' = Inr out \<and> wf_array out
           \<and> nrows out = nrows (np_full 5 4 2) - nrows (np_full 3 3 1) + 1
           \<and> ncols out = ncols (np_full 5 4 2) - ncols (np_full 3 3 1) + 1)"
proof -
  have h: "odd (nrows (np_full 3 3 1))" "odd (ncols (np_full 3 3 1))"
    "nrows (np_full 3 3 1) \<le> nrows (np_full 5 4 2)" "ncols (np_full 3 3 1) \<le> ncols (np_full 5 4 2)"
    by (simp_all add: np_full_def)
  show ?thesis
    using h convolve2d_valid_shape[OF h] by blast
qed

text \<open>
  Claim C6. For every image of shape \<open>H \<times> W\<close> with \<open>H, W \<ge> 1\<close> and every kernel of odd
  height and width, whether or not it fits within the image, the call in \<open>'same'\<close> mode
  returns an array of shape \<open>H \<times> W\<close>.
\<close>

theorem convolve2d_same_shape:
  assumes "1 \<le> nrows img" "1 \<le> ncols img" "odd (nrows ker)" "odd (ncols ker)"
  shows "\<exists>out. convolve2d img ker ''same'' = Inr out \<and> wf_array out
           \<and> nrows out = nrows img \<and> ncols out = ncols img"
proof -
  define img' where "img' = pad_stage img ker ''same''"
  have sh: "nrows img' = nrows img + 2 * (nrows ker div 2)"
           "ncols img' = ncols img + 2 * (ncols ker div 2)"
    by (simp_all add: img'_def pad_stage_same_shape)
  have kh: "2 * (nrows ker div 2) + 1 = nrows ker" and kw: "2 * (ncols ker div 2) + 1 = ncols ker"
    using assms(3,4) by (simp_all add: odd_two_times_div_two_succ)
  have eq: "nrows img + nrows ker = nrows img' + 1" "ncols img + ncols ker = ncols img' + 1"
    using sh kh kw by linarith+
  show ?thesis
    using img'_def eq by (rule convolve2d_ok_shape)
qed

theorem convolve2d_same_shape_witness:
  "1 \<le> nrows (np_full 2 3 7) \<and> 1 \<le> ncols (np_full 2 3 7)
   \<and> odd (nrows (np_full 5 3 1)) \<and> odd (ncols (np_full 5 3 1))
   \<and> (\<exists>out. convolve2d (np_full 2 3 7) (np_full 5 3 1) ''same'' = Inr out \<and> wf_array out
           \<and> nrows out = nrows (np_full 2 3 7) \<and> ncols out = ncols (np_full 2 3 7))"
proof -
  have h: "1 \<le> nrows (np_full 2 3 7)" "1 \<le> ncols (np_full 2 3 7)"
    "odd (nrows (np_full 5 3 1))" "odd (ncols (np_full 5 3 1))"
    by (simp_all add: np_full_def)
  show ?thesis
    using h convolve2d_same_shape[OF h] by blast
qed

section \<open>Identity and linearity\<close>

text \<open>
  Claim C7. Correlating any image with the \<open>1 \<times> 1\<close> kernel \<open>[[1]]\<close> returns the image itself,
  entry for entry and with the same shape, in \<open>'valid'\<close> mode and in \<open>'same'\<close> mode.
\<close>

theorem convolve2d_identity_kernel:
  assumes "wf_array img"
  shows "convolve2d img identity_kernel ''valid'' = Inr img
       \<and> convolve2d img identity_kernel ''same'' = Inr img"
  using assms by (simp add: convolve2d_identity_any)

theorem convolve2d_identity_kernel_witness:
  "wf_array demo_image
   \<and> convolve2d demo_image identity_kernel ''valid'' = Inr demo_image
   \<and> convolve2d demo_image identity_kernel ''same'' = Inr demo_image"
  using wf_demo_image convolve2d_identity_kernel[OF wf_demo_image] by blast

text \<open>
  Claim C8. For kernels \<open>k1\<close>, \<open>k2\<close> of equal shape and scalars \<open>a\<close>, \<open>b\<close>, the combination
  \<open>a * k1 + b * k2\<close> is an array \<open>k\<close>, and correlating the image with \<open>k\<close> gives
  \<open>a * convolve2d(image, k1) + b * convolve2d(image, k2)\<close>: the same array when the two
  calls return, the same exception when they raise. This holds for every padding argument,
  so in both modes, and exactly, the entries being real numbers here.
\<close>

theorem convolve2d_linear_in_kernel:
  assumes "wf_array img" "wf_array k1" "wf_array k2"
    and "nrows k1 = nrows k2" "ncols k1 = ncols k2"
  shows "\<exists>k. lincomb a k1 b k2 = Inr k
           \<and> convolve2d img k padding =
               (case convolve2d img k1 padding of
                  Inl e \<Rightarrow> Inl e
                | Inr o1 \<Rightarrow>
                    (case convolve2d img k2 padding of
                       Inl e \<Rightarrow> Inl e
                     | Inr o2 \<Rightarrow> lincomb a o1 b o2))"
proof -
  define k where "k = \<lparr>nrows = nrows k2, ncols = ncols k2,
      cells = map (\<lambda>i. map (\<lambda>j. a * cells k1 ! i ! j + b * cells k2 ! i ! j) [0..<ncols k2])
                [0..<nrows k2]\<rparr>"
  have lk: "lincomb a k1 b k2 = Inr k"
    unfolding k_def using assms(2-5) by (rule lincomb_same_shape)
  have ksh: "nrows k = nrows k2" "ncols k = ncols k2" by (simp_all add: k_def)
  have kcell: "\<And>r c. r < nrows k \<Longrightarrow> c < ncols k \<Longrightarrow>
                 cells k ! r ! c = a * cells k1 ! r ! c + b * cells k2 ! r ! c"
    by (simp add: k_def)
  define img' where "img' = pad_stage img k padding"
  have p1: "img' = pad_stage img k1 padding" and p2: "img' = pad_stage img k2 padding"
    by (simp_all add: img'_def pad_stage_def ksh assms(4,5))
  have wf': "wf_array img'"
    unfolding img'_def using assms(1) by (rule wf_array_pad_stage)
  show ?thesis
  proof (cases "nrows img' + 1 < nrows k2 \<or> ncols img' + 1 < ncols k2")
    case True
    then have "convolve2d img k padding = Inl ValueError"
      "convolve2d img k1 padding = Inl ValueError"
      by (simp_all add: convolve2d_fail[OF img'_def] convolve2d_fail[OF p1] ksh assms(4,5))
    with lk show ?thesis by simp
  next
    case False
    define oh ow where "oh = nrows img' + 1 - nrows k2" and "ow = ncols img' + 1 - ncols k2"
    have dims: "oh + nrows k2 = nrows img' + 1" "ow + ncols k2 = ncols img' + 1"
      using False unfolding oh_def ow_def by linarith+
    define o1 o2 where
      "o1 = \<lparr>nrows = oh, ncols = ow, cells = map (\<lambda>i. map (cell_value img' k1 i) [0..<ow]) [0..<oh]\<rparr>"
      and "o2 = \<lparr>nrows = oh, ncols = ow, cells = map (\<lambda>i. map (cell_value img' k2 i) [0..<ow]) [0..<oh]\<rparr>"
    have r: "convolve2d img k padding =
        Inr \<lparr>nrows = oh, ncols = ow, cells = map (\<lambda>i. map (cell_value img' k i) [0..<ow]) [0..<oh]\<rparr>"
      using img'_def dims by (intro convolve2d_ok) (simp_all add: ksh)
    have r1: "convolve2d img k1 padding = Inr o1"
      unfolding o1_def using p1 dims by (intro convolve2d_ok) (simp_all add: assms(4,5))
    have r2: "convolve2d img k2 padding = Inr o2"
      unfolding o2_def using p2 dims by (intro convolve2d_ok)
    have wfo: "wf_array o1" "wf_array o2" "nrows o1 = nrows o2" "ncols o1 = ncols o2"
      "nrows o2 = oh" "ncols o2 = ow"
      by (simp_all add: o1_def o2_def)
    have lo: "lincomb a o1 b o2 =
        Inr \<lparr>nrows = oh, ncols = ow,
             cells = map (\<lambda>i. map (\<lambda>j. a * cells o1 ! i ! j + b * cells o2 ! i ! j) [0..<ow]) [0..<oh]\<rparr>"
      using lincomb_same_shape[OF wfo(1-4), of a b] by (simp only: wfo(5,6))
    have "map (\<lambda>i. map (cell_value img' k i) [0..<ow]) [0..<oh]
        = map (\<lambda>i. map (\<lambda>j. a * cells o1 ! i ! j + b * cells o2 ! i ! j) [0..<ow]) [0..<oh]"
    proof (rule table_cong)
      fix i j assume ij: "i < oh" "j < ow"
      then have fit: "i + nrows k2 \<le> nrows img'" "j + ncols k2 \<le> ncols img'"
        using dims by linarith+
      have "cell_value img' k i j = window_sum img' k i j"
        "cell_value img' k1 i j = window_sum img' k1 i j"
        "cell_value img' k2 i j = window_sum img' k2 i j"
        using wf' fit by (simp_all add: cell_value_window_sum ksh assms(4,5))
      moreover have "window_sum img' k i j = a * window_sum img' k1 i j + b * window_sum img' k2 i j"
        using kcell by (rule window_sum_lincomb) (simp_all add: ksh assms(4,5))
      moreover have "cells o1 ! i ! j = cell_value img' k1 i j" "cells o2 ! i ! j = cell_value img' k2 i j"
        using ij by (simp_all add: o1_def o2_def)
      ultimately show "cell_value img' k i j = a * cells o1 ! i ! j + b * cells o2 ! i ! j"
        by simp
    qed
    with r lo have "convolve2d img k padding = lincomb a o1 b o2" by simp
    with lk r1 r2 show ?thesis by simp
  qed
qed

theorem convolve2d_linear_in_kernel_witness:
  "wf_array demo_image \<and> wf_array demo_kernel \<and> wf_array demo_kernel2
   \<and> nrows demo_kernel = nrows demo_kernel2 \<and> ncols demo_kernel = ncols demo_kernel2
   \<and> (\<exists>k. lincomb 2 demo_kernel 3 demo_kernel2 = Inr k
         \<and> convolve2d demo_image k ''same'' =
             (case convolve2d demo_image demo_kernel ''same'' of
                Inl e \<Rightarrow> Inl e
              | Inr o1 \<Rightarrow>
                  (case convolve2d demo_image demo_kernel2 ''same'' of
                     Inl e \<Rightarrow> Inl e
                   | Inr o2 \<Rightarrow> lincomb 2 o1 3 o2)))"
proof -
  have h: "wf_array demo_image" "wf_array demo_kernel" "wf_array demo_kernel2"
    "nrows demo_kernel = nrows demo_kernel2" "ncols demo_kernel = ncols demo_kernel2"
    by (simp_all add: wf_array_def demo_image_def demo_kernel_def demo_kernel2_def)
  show ?thesis
    using h convolve2d_linear_in_kernel[OF h, of 2 3] by blast
qed

section \<open>The averaging kernel at the border\<close>

text \<open>
  Claim C9. On the \<open>3 \<times> 3\<close> image with every entry \<open>255\<close>, the \<open>3 \<times> 3\<close> averaging kernel
  (every entry \<open>1/9\<close>) in \<open>'same'\<close> mode gives a \<open>3 \<times> 3\<close> array whose four corners are
  \<open>255 * 4 / 9\<close> and whose centre is \<open>255\<close>, in exact arithmetic.
\<close>

theorem averaging_corners_and_centre:
  "\<exists>out. convolve2d (np_full 3 3 255) averaging_kernel ''same'' = Inr out
     \<and> nrows out = 3 \<and> ncols out = 3
     \<and> cells out ! 0 ! 0 = 255 * 4 / 9 \<and> cells out ! 0 ! 2 = 255 * 4 / 9
     \<and> cells out ! 2 ! 0 = 255 * 4 / 9 \<and> cells out ! 2 ! 2 = 255 * 4 / 9
     \<and> cells out ! 1 ! 1 = 255"
  by (simp add: averaging_response)

section \<open>Unrecognised padding arguments\<close>

text \<open>
  Claim C10. Any padding argument other than the string \<open>'same'\<close>, a misspelt mode included,
  leaves the image unpadded, and the call then does exactly what it does in \<open>'valid'\<close> mode:
  the same array or the same exception. No argument is rejected as an unknown mode.
\<close>

theorem convolve2d_unrecognised_padding:
  assumes "padding \<noteq> ''same''"
  shows "pad_stage img ker padding = img
       \<and> convolve2d img ker padding = convolve2d img ker ''valid''"
  using assms by (simp add: convolve2d_def pad_stage_def)

theorem convolve2d_unrecognised_padding_witness:
  "''vaild'' \<noteq> ''same''
   \<and> pad_stage (np_full 3 3 1) (np_full 3 3 2) ''vaild'' = np_full 3 3 1
   \<and> convolve2d (np_full 3 3 1) (np_full 3 3 2) ''vaild''
       = convolve2d (np_full 3 3 1) (np_full 3 3 2) ''valid''"
proof -
  have h: "''vaild'' \<noteq> ''same''" by simp
  show ?thesis
    using h convolve2d_unrecognised_padding[OF h] by blast
qed

end
